theory Spec2Isabelle
  imports Main "HOL-Library.Word"
begin

section \<open>The flow classifier server (classification/classifier\_server.py)\<close>

text \<open>
  The server is one Python module: a class \<open>Classifier\<close> whose class attribute \<open>model\<close>
  is unpickled while the module is executed, a gRPC servicer with the unary handler
  \<open>Classify\<close> and the streaming handler \<open>ClassifyStreaming\<close>, and \<open>serve\<close>, which
  binds the port and starts the server. The embedding passes the process state explicitly:
  the class attribute and the trace of calls the module makes to its collaborators (file
  system, pickle, the model's \<open>predict\<close>, standard output, the gRPC server object).
  Exceptions are values: a call that raises returns \<open>Inl\<close> of the exception.
\<close>

subsection \<open>Exceptions, messages, the model\<close>

datatype pyexn =
    OSError
  | UnpicklingError
  | ValueError
  | IndexError
  | PredictError
  | RuntimeError

text \<open>
  Modelled from the spec: the message declarations of \<open>proto/flow_pb2\<close>, which is not
  among the sources. The field names are the ones \<open>Classifier.classify\<close> reads; their
  widths are those of the spec's contract (\<open>uint32\<close> for ports, protocols and flags,
  \<open>uint64\<close> for counters and the duration). The record is extensible: whatever else a
  message carries is its \<open>more\<close> part. Reading a field of a protobuf message never
  raises (an absent field reads as its default), so field access is a total selector.
\<close>

record FlowMessage =
  L4SrcPort :: "32 word"
  L4DstPort :: "32 word"
  Protocol :: "32 word"
  L7Proto :: "32 word"
  InBytes :: "64 word"
  OutBytes :: "64 word"
  InPkts :: "64 word"
  OutPkts :: "64 word"
  TCPFlags :: "32 word"
  FlowDurationMilliseconds :: "64 word"

record FlowMessageClass =
  malicious :: bool

text \<open>
  The unpickled model is opaque; the module only calls its \<open>predict\<close> on a list of
  samples (each a list of Python integers) and gets an array of labels back, or an
  exception. \<open>predict\<close> of a fitted scikit-learn tree reads the tree and changes nothing,
  so the model is a function value.
\<close>

type_synonym predictor = "int list list \<Rightarrow> pyexn + int list"

subsection \<open>Process state and the trace of external calls\<close>

datatype event =
    Open string
  | PickleLoad
  | Predict "int list list"
  | Print string
  | GrpcServer nat
  | AddServicer
  | AddInsecurePort string
  | ServerStart
  | WaitForTermination

record process =
  model :: predictor
  trace :: "event list"

text \<open>
  The \<open>context\<close> argument of a handler is the framework's per-call object; the status a
  handler selects for the call is what it stores there (\<open>set_code\<close>, \<open>set_details\<close>).
\<close>

datatype StatusCode =
    OK | CANCELLED | UNKNOWN | INVALID_ARGUMENT | DEADLINE_EXCEEDED | NOT_FOUND
  | ALREADY_EXISTS | PERMISSION_DENIED | RESOURCE_EXHAUSTED | FAILED_PRECONDITION
  | ABORTED | OUT_OF_RANGE | UNIMPLEMENTED | INTERNAL | UNAVAILABLE | DATA_LOSS
  | UNAUTHENTICATED

record ServicerContext =
  ctx_code :: "StatusCode option"
  ctx_details :: "string option"

record unary_call =
  returned :: "pyexn + FlowMessageClass"
  ctx_after :: ServicerContext
  proc_after :: process

record streaming_call =
  yielded :: "FlowMessageClass list"
  raised :: "pyexn option"
  stream_ctx_after :: ServicerContext
  stream_proc_after :: process

subsection \<open>Classifier.classify\<close>

text \<open>\<open>result[0]\<close>: indexing an empty array raises \<open>IndexError\<close>.\<close>

fun getitem0 :: "'a list \<Rightarrow> pyexn + 'a" where
  "getitem0 [] = Inl IndexError"
| "getitem0 (label # others) = Inr label"

text \<open>
  \<open>classify\<close> builds one sample from the message and calls \<open>predict\<close> on the
  one-sample batch. The call is recorded in the trace whether or not it raises.
\<close>

definition classify :: "process \<Rightarrow> 'a FlowMessage_scheme \<Rightarrow> (pyexn + int list) \<times> process" where
  "classify p msg =
     (let x = [[
            uint (L4SrcPort msg),
            uint (L4DstPort msg),
            uint (Protocol msg),
            uint (L7Proto msg),
            uint (InBytes msg),
            uint (OutBytes msg),
            uint (InPkts msg),
            uint (OutPkts msg),
            uint (TCPFlags msg),
            uint (FlowDurationMilliseconds msg)
          ]]
      in (model p x, p\<lparr>trace := trace p @ [Predict x]\<rparr>))"

subsection \<open>The servicer\<close>

text \<open>
  \<open>Classify\<close>: no \<open>try\<close>, no use of \<open>context\<close>. An exception of \<open>classify\<close> or of
  \<open>result[0]\<close> leaves the handler as it is.
\<close>

definition Classify :: "process \<Rightarrow> 'a FlowMessage_scheme \<Rightarrow> ServicerContext \<Rightarrow> unary_call" where
  "Classify p request context =
     (case classify p request of
        (Inl e, p1) \<Rightarrow> \<lparr>returned = Inl e, ctx_after = context, proc_after = p1\<rparr>
      | (Inr result, p1) \<Rightarrow>
          (case getitem0 result of
             Inl e \<Rightarrow> \<lparr>returned = Inl e, ctx_after = context, proc_after = p1\<rparr>
           | Inr r0 \<Rightarrow>
               \<lparr>returned = Inr \<lparr>malicious = (if r0 = 1 then True else False)\<rparr>,
                ctx_after = context, proc_after = p1\<rparr>))"

text \<open>
  The \<open>for\<close> loop of the generator \<open>ClassifyStreaming\<close>, consumed to its end: the
  verdicts yielded, in order, the exception that ended the generator (if any) and the
  process state at that point. The request iterator is the finite sequence of messages
  the client sent before closing its side.
\<close>

fun stream_loop ::
  "process \<Rightarrow> 'a FlowMessage_scheme list \<Rightarrow> FlowMessageClass list \<times> pyexn option \<times> process" where
  "stream_loop p [] = ([], None, p)"
| "stream_loop p (msg # rest) =
     (case classify p msg of
        (Inl e, p1) \<Rightarrow> ([], Some e, p1)
      | (Inr result, p1) \<Rightarrow>
          (case getitem0 result of
             Inl e \<Rightarrow> ([], Some e, p1)
           | Inr r0 \<Rightarrow>
               (let v = \<lparr>malicious = (if r0 = 1 then True else False)\<rparr>;
                    (vs, err, p2) = stream_loop p1 rest
                in (v # vs, err, p2))))"

definition ClassifyStreaming ::
  "process \<Rightarrow> 'a FlowMessage_scheme list \<Rightarrow> ServicerContext \<Rightarrow> streaming_call" where
  "ClassifyStreaming p request_iterator context =
     (let p0 = p\<lparr>trace := trace p @ [Print ''mega printa'']\<rparr>;
          (vs, err, p1) = stream_loop p0 request_iterator
      in \<lparr>yielded = vs, raised = err, stream_ctx_after = context, stream_proc_after = p1\<rparr>)"

subsection \<open>Module execution and serve\<close>

text \<open>
  What the module gets from outside: the file system, \<open>pickle.load\<close>, the process
  environment, Python's \<open>int\<close> on a string, and the port binding of the gRPC server.
\<close>

record environment =
  open_rb :: "string \<Rightarrow> pyexn + 8 word list"
  pickle_load :: "8 word list \<Rightarrow> pyexn + predictor"
  environ :: "string \<Rightarrow> string option"
  int_of_str :: "string \<Rightarrow> pyexn + int"
  add_insecure_port :: "string \<Rightarrow> pyexn + int"

text \<open>\<open>str\<close> of an integer, for the f-strings of \<open>serve\<close>.\<close>

definition digit_char :: "nat \<Rightarrow> char" where
  "digit_char d = ''0123456789'' ! d"

fun str_nat :: "nat \<Rightarrow> string" where
  "str_nat n =
     (if n < 10 then [digit_char n]
      else str_nat (n div 10) @ [digit_char (n mod 10)])"

declare str_nat.simps [simp del]

definition str_int :: "int \<Rightarrow> string" where
  "str_int i = (if i < 0 then CHR ''-'' # str_nat (nat (- i)) else str_nat (nat i))"

text \<open>
  \<open>serve\<close> either raises (the port cannot be added) or ends blocked in
  \<open>wait_for_termination\<close> with the server started: \<open>None\<close> is the second case.
\<close>

definition serve :: "environment \<Rightarrow> process \<Rightarrow> int \<Rightarrow> pyexn option \<times> process" where
  "serve env p port =
     (let p1 = p\<lparr>trace := trace p @ [GrpcServer 10, AddServicer]\<rparr>;
          addr = ''[::]:'' @ str_int port;
          p2 = p1\<lparr>trace := trace p1 @ [AddInsecurePort addr]\<rparr>
      in case add_insecure_port env addr of
           Inl e \<Rightarrow> (Some e, p2)
         | Inr _ \<Rightarrow>
             (None, p2\<lparr>trace := trace p2 @
                [ServerStart, Print (''started listening on: '' @ addr), WaitForTermination]\<rparr>))"

text \<open>
  Running the module as \<open>__main__\<close>. The class body of \<open>Classifier\<close> is executed first,
  so the model file is opened and unpickled before the port is read from the environment
  and before \<open>serve\<close> is called. An exception nobody catches ends the interpreter with
  exit status 1.
\<close>

datatype run = Exited int "event list" | Serving process

definition model_path :: string where
  "model_path = ''flow-or-malicious.model''"

definition module_main :: "environment \<Rightarrow> run" where
  "module_main env =
     (case open_rb env model_path of
        Inl e \<Rightarrow> Exited 1 [Open model_path]
      | Inr f \<Rightarrow>
          (case pickle_load env f of
             Inl e \<Rightarrow> Exited 1 [Open model_path, PickleLoad]
           | Inr m \<Rightarrow>
               (let p = \<lparr>model = m, trace = [Open model_path, PickleLoad]\<rparr> in
                case (case environ env ''GRPC_SERVER_PORT'' of
                        None \<Rightarrow> Inr 50051
                      | Some s \<Rightarrow> int_of_str env s) of
                  Inl e \<Rightarrow> Exited 1 (trace p)
                | Inr port \<Rightarrow>
                    (case serve env p port of
                       (Some e, p') \<Rightarrow> Exited 1 (trace p')
                     | (None, p') \<Rightarrow> Serving p'))))"

subsection \<open>Observations on a run\<close>

text \<open>
  The feature vector in the words of the specification:
  \<open>[l4_src_port, l4_dst_port, protocol, l7_protocol, in_bytes, out_bytes, in_packets,
  out_packets, tcp_flags, flow_duration_ms]\<close>, each field read as an unsigned integer.
\<close>

definition feature_vector :: "'a FlowMessage_scheme \<Rightarrow> int list" where
  "feature_vector r =
     [uint (L4SrcPort r), uint (L4DstPort r), uint (Protocol r), uint (L7Proto r),
      uint (InBytes r), uint (OutBytes r), uint (InPkts r), uint (OutPkts r),
      uint (TCPFlags r), uint (FlowDurationMilliseconds r)]"

text \<open>The process state after one more call to \<open>predict\<close>, for the message \<open>r\<close>.\<close>

abbreviation logged :: "process \<Rightarrow> 'a FlowMessage_scheme \<Rightarrow> process" where
  "logged p r \<equiv> p\<lparr>trace := trace p @ [Predict [feature_vector r]]\<rparr>"

text \<open>The arguments of the calls to \<open>predict\<close> in a trace, in order.\<close>

definition predict_calls :: "event list \<Rightarrow> int list list list" where
  "predict_calls tr = concat (map (\<lambda>ev. case ev of Predict x \<Rightarrow> [x] | _ \<Rightarrow> []) tr)"

text \<open>The events of loading the model, and those of binding and starting the server.\<close>

definition is_load :: "event \<Rightarrow> bool" where
  "is_load ev = (case ev of Open _ \<Rightarrow> True | PickleLoad \<Rightarrow> True | _ \<Rightarrow> False)"

definition is_listen :: "event \<Rightarrow> bool" where
  "is_listen ev = (case ev of AddInsecurePort _ \<Rightarrow> True | ServerStart \<Rightarrow> True | _ \<Rightarrow> False)"

text \<open>
  The label the model gives a message: the value of \<open>Classifier.classify(msg)[0]\<close>, or
  the exception that evaluating it raises.
\<close>

definition label_of :: "process \<Rightarrow> 'a FlowMessage_scheme \<Rightarrow> pyexn + int" where
  "label_of p msg =
     (case fst (classify p msg) of Inl e \<Rightarrow> Inl e | Inr result \<Rightarrow> getitem0 result)"

text \<open>
  The specification's reading of the streaming operation: the unary \<open>Classify\<close> applied
  to each message on its own, every call starting from the same process state, the
  verdicts collected in order up to the first call that raises.
\<close>

fun map_Classify ::
  "process \<Rightarrow> 'a FlowMessage_scheme list \<Rightarrow> ServicerContext \<Rightarrow> FlowMessageClass list \<times> pyexn option" where
  "map_Classify p [] c = ([], None)"
| "map_Classify p (r # rs) c =
     (case returned (Classify p r c) of
        Inl e \<Rightarrow> ([], Some e)
      | Inr v \<Rightarrow> (let (vs, err) = map_Classify p rs c in (v # vs, err)))"

text \<open>
  The life of a serving process, as far as the handlers can change it: the framework hands
  each incoming call to \<open>Classify\<close> or \<open>ClassifyStreaming\<close>; here the calls are
  taken one after another, each starting from the process state the previous one left.
\<close>

datatype 'a rpc =
    UnaryCall "'a FlowMessage_scheme" ServicerContext
  | StreamingCall "'a FlowMessage_scheme list" ServicerContext

fun handle :: "process \<Rightarrow> 'a rpc \<Rightarrow> process" where
  "handle p (UnaryCall request context) = proc_after (Classify p request context)"
| "handle p (StreamingCall request_iterator context) =
     stream_proc_after (ClassifyStreaming p request_iterator context)"

definition serve_calls :: "process \<Rightarrow> 'a rpc list \<Rightarrow> process" where
  "serve_calls p calls = foldl handle p calls"

subsection \<open>Concrete inputs for evaluation\<close>

text \<open>The example record of the specification, and the same flow with a zero duration.\<close>

definition example_record :: FlowMessage where
  "example_record =
     \<lparr>L4SrcPort = 443, L4DstPort = 51000, Protocol = 6, L7Proto = 91, InBytes = 1000,
      OutBytes = 500, InPkts = 10, OutPkts = 8, TCPFlags = 24,
      FlowDurationMilliseconds = 1200\<rparr>"

definition small_record :: FlowMessage where
  "small_record = example_record\<lparr>InBytes := 40\<rparr>"

definition zero_duration_record :: FlowMessage where
  "zero_duration_record = example_record\<lparr>FlowDurationMilliseconds := 0\<rparr>"

text \<open>The example record inside a message that carries one more field.\<close>

definition tagged_record :: "string FlowMessage_scheme" where
  "tagged_record =
     \<lparr>L4SrcPort = 443, L4DstPort = 51000, Protocol = 6, L7Proto = 91, InBytes = 1000,
      OutBytes = 500, InPkts = 10, OutPkts = 8, TCPFlags = 24,
      FlowDurationMilliseconds = 1200, \<dots> = ''10.0.0.7''\<rparr>"

text \<open>
  A stand-in for an unpickled model: it raises on a sample that does not have ten
  features or whose last feature is zero, and otherwise labels a sample 1 exactly when
  its fifth feature (\<open>in_bytes\<close>) exceeds 500.
\<close>

definition stub_model :: predictor where
  "stub_model x =
     (if list_all (\<lambda>v. length v = 10 \<and> v ! 9 \<noteq> 0) x
      then Inr (map (\<lambda>v. if 500 < v ! 4 then 1 else 0) x)
      else Inl PredictError)"

definition stub_process :: process where
  "stub_process = \<lparr>model = stub_model, trace = [Open model_path, PickleLoad]\<rparr>"

definition fresh_context :: ServicerContext where
  "fresh_context = \<lparr>ctx_code = None, ctx_details = None\<rparr>"

text \<open>
  An environment without the model file, one whose file does not unpickle, and one whose
  file unpickles to the stand-in model; the port variable is unset in all three.
\<close>

definition no_file_env :: environment where
  "no_file_env =
     \<lparr>open_rb = (\<lambda>_. Inl OSError), pickle_load = (\<lambda>_. Inr stub_model),
      environ = (\<lambda>_. None), int_of_str = (\<lambda>_. Inl ValueError),
      add_insecure_port = (\<lambda>_. Inr 50051)\<rparr>"

definition corrupt_file_env :: environment where
  "corrupt_file_env = no_file_env\<lparr>open_rb := (\<lambda>_. Inr [0, 1]), pickle_load := (\<lambda>_. Inl UnpicklingError)\<rparr>"

definition good_env :: environment where
  "good_env = no_file_env\<lparr>open_rb := (\<lambda>_. Inr [128, 4])\<rparr>"

section \<open>Properties\<close>

subsection \<open>One call of classify, one round of the loop\<close>

lemma classify_fst: "fst (classify p msg) = model p [feature_vector msg]"
  by (simp add: classify_def feature_vector_def Let_def)

lemma classify_snd: "snd (classify p msg) = p\<lparr>trace := trace p @ [Predict [feature_vector msg]]\<rparr>"
  by (simp add: classify_def feature_vector_def Let_def)

lemma label_of_model:
  "label_of p msg = (case model p [feature_vector msg] of Inl e \<Rightarrow> Inl e | Inr res \<Rightarrow> getitem0 res)"
  by (simp add: label_of_def classify_fst)

lemma label_of_cong: "model p = model q \<Longrightarrow> label_of p msg = label_of q msg"
  by (simp add: label_of_model)

lemma Classify_char:
  "Classify p r c =
     \<lparr>returned = (case label_of p r of Inl e \<Rightarrow> Inl e | Inr l \<Rightarrow> Inr \<lparr>malicious = (l = 1)\<rparr>),
      ctx_after = c,
      proc_after = p\<lparr>trace := trace p @ [Predict [feature_vector r]]\<rparr>\<rparr>"
proof -
  obtain out p1 where c: "classify p r = (out, p1)" by (cases "classify p r")
  have o: "out = fst (classify p r)" and p1: "p1 = p\<lparr>trace := trace p @ [Predict [feature_vector r]]\<rparr>"
    using c classify_snd [of p r] by simp_all
  show ?thesis
    unfolding Classify_def c label_of_def o [symmetric] p1
    by (simp split: sum.splits)
qed

lemma stream_loop_Cons:
  "stream_loop p (r # rs) =
     (case label_of p r of
        Inl e \<Rightarrow> ([], Some e, p\<lparr>trace := trace p @ [Predict [feature_vector r]]\<rparr>)
      | Inr l \<Rightarrow>
          (case stream_loop (p\<lparr>trace := trace p @ [Predict [feature_vector r]]\<rparr>) rs of
             (vs, err, p2) \<Rightarrow> (\<lparr>malicious = (l = 1)\<rparr> # vs, err, p2)))"
proof -
  obtain out p1 where c: "classify p r = (out, p1)" by (cases "classify p r")
  have o: "out = fst (classify p r)" and p1: "p1 = p\<lparr>trace := trace p @ [Predict [feature_vector r]]\<rparr>"
    using c classify_snd [of p r] by simp_all
  show ?thesis
    unfolding stream_loop.simps c label_of_def o [symmetric] p1
    by (simp split: sum.splits)
qed


declare stream_loop.simps(2) [simp del]

lemma stream_loop_model:
  "stream_loop p rs = (vs, err, p') \<Longrightarrow> model p' = model p"
proof (induction rs arbitrary: p vs err p')
  case Nil
  then show ?case by simp
next
  case (Cons r rs)
  show ?case
  proof (cases "label_of p r")
    case (Inl e)
    with Cons.prems show ?thesis by (auto simp: stream_loop_Cons)
  next
    case (Inr l)
    obtain ws err2 p2 where rec: "stream_loop (logged p r) rs = (ws, err2, p2)"
      by (cases "stream_loop (logged p r) rs")
    from Cons.prems Inr rec have "p' = p2" by (simp add: stream_loop_Cons)
    with Cons.IH [OF rec] show ?thesis by simp
  qed
qed

lemma stream_loop_trace:
  "stream_loop p rs = (vs, err, p') \<Longrightarrow>
   trace p' = trace p @
     map (\<lambda>r. Predict [feature_vector r]) (take (length vs + (if err = None then 0 else 1)) rs)"
proof (induction rs arbitrary: p vs err p')
  case Nil
  then show ?case by simp
next
  case (Cons r rs)
  show ?case
  proof (cases "label_of p r")
    case (Inl e)
    with Cons.prems show ?thesis by (auto simp: stream_loop_Cons)
  next
    case (Inr l)
    obtain ws err2 p2 where rec: "stream_loop (logged p r) rs = (ws, err2, p2)"
      by (cases "stream_loop (logged p r) rs")
    from Cons.prems Inr rec have eq: "vs = \<lparr>malicious = (l = 1)\<rparr> # ws" "err = err2" "p' = p2"
      by (simp_all add: stream_loop_Cons)
    from Cons.IH [OF rec] eq show ?thesis by simp
  qed
qed

lemma stream_loop_length:
  "stream_loop p rs = (vs, err, p') \<Longrightarrow>
   (if err = None then length vs = length rs else length vs < length rs)"
proof (induction rs arbitrary: p vs err p')
  case Nil
  then show ?case by simp
next
  case (Cons r rs)
  show ?case
  proof (cases "label_of p r")
    case (Inl e)
    with Cons.prems show ?thesis by (auto simp: stream_loop_Cons)
  next
    case (Inr l)
    obtain ws err2 p2 where rec: "stream_loop (logged p r) rs = (ws, err2, p2)"
      by (cases "stream_loop (logged p r) rs")
    from Cons.prems Inr rec have eq: "vs = \<lparr>malicious = (l = 1)\<rparr> # ws" "err = err2" "p' = p2"
      by (simp_all add: stream_loop_Cons)
    from Cons.IH [OF rec] eq show ?thesis by (simp split: if_splits)
  qed
qed

lemma stream_loop_nth:
  "stream_loop p rs = (vs, err, p') \<Longrightarrow> i < length vs \<Longrightarrow>
   \<exists>l. label_of p (rs ! i) = Inr l \<and> vs ! i = \<lparr>malicious = (l = 1)\<rparr>"
proof (induction rs arbitrary: p vs err p' i)
  case Nil
  then show ?case by simp
next
  case (Cons r rs)
  show ?case
  proof (cases "label_of p r")
    case (Inl e)
    with Cons.prems show ?thesis by (auto simp: stream_loop_Cons)
  next
    case (Inr l)
    obtain ws err2 p2 where rec: "stream_loop (logged p r) rs = (ws, err2, p2)"
      by (cases "stream_loop (logged p r) rs")
    from Cons.prems(1) Inr rec have eq: "vs = \<lparr>malicious = (l = 1)\<rparr> # ws"
      by (simp add: stream_loop_Cons)
    show ?thesis
    proof (cases i)
      case 0
      with Inr eq show ?thesis by simp
    next
      case (Suc j)
      with Cons.prems(2) eq have "j < length ws" by simp
      from Cons.IH [OF rec this] obtain l' where
        "label_of (logged p r) (rs ! j) = Inr l'" "ws ! j = \<lparr>malicious = (l' = 1)\<rparr>" by blast
      moreover have "label_of (logged p r) (rs ! j) = label_of p (rs ! j)"
        by (rule label_of_cong) simp
      ultimately show ?thesis using Suc eq by simp
    qed
  qed
qed

lemma stream_loop_error:
  "stream_loop p rs = (vs, Some e, p') \<Longrightarrow> label_of p (rs ! length vs) = Inl e"
proof (induction rs arbitrary: p vs p')
  case Nil
  then show ?case by simp
next
  case (Cons r rs)
  show ?case
  proof (cases "label_of p r")
    case (Inl e')
    with Cons.prems show ?thesis by (auto simp: stream_loop_Cons)
  next
    case (Inr l)
    obtain ws err2 p2 where rec: "stream_loop (logged p r) rs = (ws, err2, p2)"
      by (cases "stream_loop (logged p r) rs")
    from Cons.prems Inr rec have eq: "vs = \<lparr>malicious = (l = 1)\<rparr> # ws" "err2 = Some e"
      by (simp_all add: stream_loop_Cons)
    from Cons.IH [OF rec [unfolded eq(2)]] have "label_of (logged p r) (rs ! length ws) = Inl e" .
    moreover have "label_of (logged p r) (rs ! length ws) = label_of p (rs ! length ws)"
      by (rule label_of_cong) simp
    ultimately show ?thesis using eq by simp
  qed
qed

subsection \<open>The streaming handler and the trace\<close>

lemma ClassifyStreaming_loop:
  "stream_loop (p\<lparr>trace := trace p @ [Print ''mega printa'']\<rparr>) rs =
     (yielded (ClassifyStreaming p rs c), raised (ClassifyStreaming p rs c),
      stream_proc_after (ClassifyStreaming p rs c))"
  by (simp add: ClassifyStreaming_def Let_def split: prod.splits)

lemma predict_calls_append [simp]:
  "predict_calls (xs @ ys) = predict_calls xs @ predict_calls ys"
  by (simp add: predict_calls_def)

lemma predict_calls_Nil [simp]: "predict_calls [] = []"
  by (simp add: predict_calls_def)

lemma predict_calls_Cons [simp]:
  "predict_calls (ev # tr) = (case ev of Predict x \<Rightarrow> [x] | _ \<Rightarrow> []) @ predict_calls tr"
  by (simp add: predict_calls_def)

lemma predict_calls_map_Predict [simp]:
  "predict_calls (map (\<lambda>r. Predict (f r)) rs) = map f rs"
  by (induction rs) simp_all

subsection \<open>The handlers on the concrete inputs\<close>

lemma stub_label_example: "label_of stub_process example_record = Inr 1"
  by (simp add: label_of_model stub_process_def stub_model_def feature_vector_def
      example_record_def)

lemma stub_label_small: "label_of stub_process small_record = Inr 0"
  by (simp add: label_of_model stub_process_def stub_model_def feature_vector_def
      small_record_def example_record_def)

lemma stub_label_zero: "label_of stub_process zero_duration_record = Inl PredictError"
  by (simp add: label_of_model stub_process_def stub_model_def feature_vector_def
      zero_duration_record_def example_record_def)

lemma stub_stream:
  "ClassifyStreaming stub_process [example_record, small_record, zero_duration_record, example_record] fresh_context
   = \<lparr>yielded = [\<lparr>malicious = True\<rparr>, \<lparr>malicious = False\<rparr>], raised = Some PredictError,
      stream_ctx_after = fresh_context,
      stream_proc_after = stub_process\<lparr>trace := trace stub_process @
        [Print ''mega printa'', Predict [feature_vector example_record],
         Predict [feature_vector small_record], Predict [feature_vector zero_duration_record]]\<rparr>\<rparr>"
  by (simp add: ClassifyStreaming_def Let_def stream_loop_Cons label_of_cong [of _ stub_process]
      stub_label_example stub_label_small stub_label_zero)

lemma stub_stream_ok:
  "ClassifyStreaming stub_process [example_record, small_record] fresh_context
   = \<lparr>yielded = [\<lparr>malicious = True\<rparr>, \<lparr>malicious = False\<rparr>], raised = None,
      stream_ctx_after = fresh_context,
      stream_proc_after = stub_process\<lparr>trace := trace stub_process @
        [Print ''mega printa'', Predict [feature_vector example_record],
         Predict [feature_vector small_record]]\<rparr>\<rparr>"
  by (simp add: ClassifyStreaming_def Let_def stream_loop_Cons label_of_cong [of _ stub_process]
      stub_label_example stub_label_small stub_label_zero)

subsection \<open>Module execution, and what the handlers leave alone\<close>

lemma serve_trace:
  "\<exists>rest. trace (snd (serve env p port)) = trace p @ rest \<and> filter is_load rest = []"
  by (simp add: serve_def Let_def is_load_def split: sum.splits)

lemma serve_model: "model (snd (serve env p port)) = model p"
  by (simp add: serve_def Let_def split: sum.splits)

lemma module_main_Serving:
  assumes "module_main env = Serving p"
  shows "\<exists>f rest. open_rb env model_path = Inr f \<and> pickle_load env f = Inr (model p)
           \<and> trace p = [Open model_path, PickleLoad] @ rest \<and> filter is_load rest = []"
proof -
  from assms obtain f where f: "open_rb env model_path = Inr f"
    by (cases "open_rb env model_path") (simp_all add: module_main_def)
  from assms f obtain m where m: "pickle_load env f = Inr m"
    by (cases "pickle_load env f") (simp_all add: module_main_def)
  let ?p = "\<lparr>model = m, trace = [Open model_path, PickleLoad]\<rparr>"
  from assms f m obtain port where
    s: "serve env ?p port = (None, p)"
    by (auto simp: module_main_def Let_def split: sum.splits option.splits prod.splits)
  from serve_trace [of env ?p port] serve_model [of env ?p port] s
  show ?thesis using f m by auto
qed

lemma module_main_load_fails:
  assumes "(\<exists>e. open_rb env model_path = Inl e)
     \<or> (\<exists>f e. open_rb env model_path = Inr f \<and> pickle_load env f = Inl e)"
  shows "module_main env = Exited 1 (Open model_path # (case open_rb env model_path of Inl _ \<Rightarrow> [] | Inr _ \<Rightarrow> [PickleLoad]))"
  using assms by (auto simp: module_main_def)

lemma Classify_loads:
  "filter is_load (trace (proc_after (Classify q r c))) = filter is_load (trace q)"
  by (simp add: Classify_char is_load_def)

lemma ClassifyStreaming_loads:
  "filter is_load (trace (stream_proc_after (ClassifyStreaming q rs c))) = filter is_load (trace q)"
  using stream_loop_trace [OF ClassifyStreaming_loop, of q rs c]
  by (simp add: is_load_def filter_empty_conv)

lemma handle_loads: "filter is_load (trace (handle q call)) = filter is_load (trace q)"
  by (cases call) (simp_all add: Classify_loads ClassifyStreaming_loads)

lemma serve_calls_loads:
  "filter is_load (trace (serve_calls q calls)) = filter is_load (trace q)"
  unfolding serve_calls_def by (induction calls arbitrary: q) (simp_all add: handle_loads)

lemma handle_model: "model (handle q call) = model q"
proof (cases call)
  case (UnaryCall r c)
  then show ?thesis by (simp add: Classify_char)
next
  case (StreamingCall rs c)
  then show ?thesis using stream_loop_model [OF ClassifyStreaming_loop, of q rs c] by simp
qed

lemma serve_calls_model: "model (serve_calls q calls) = model q"
  unfolding serve_calls_def by (induction calls arbitrary: q) (simp_all add: handle_model)

lemma str_int_50051: "str_int 50051 = ''50051''"
  by (simp add: str_int_def str_nat.simps digit_char_def)

lemma module_main_good_env:
  "module_main good_env = Serving
     \<lparr>model = stub_model,
      trace = [Open model_path, PickleLoad, GrpcServer 10, AddServicer,
               AddInsecurePort ''[::]:50051'', ServerStart,
               Print ''started listening on: [::]:50051'', WaitForTermination]\<rparr>"
  by (simp add: module_main_def good_env_def no_file_env_def serve_def Let_def str_int_50051)

subsection \<open>The streaming loop against the unary handler\<close>

lemma map_Classify_loop:
  "model q = model p \<Longrightarrow> stream_loop p rs = (vs, err, p') \<Longrightarrow> map_Classify q rs c = (vs, err)"
proof (induction rs arbitrary: p vs err p')
  case Nil
  then show ?case by simp
next
  case (Cons r rs)
  have lab: "label_of q r = label_of p r"
    using Cons.prems(1) by (rule label_of_cong)
  show ?case
  proof (cases "label_of p r")
    case (Inl e)
    with Cons.prems(2) lab show ?thesis
      by (auto simp: stream_loop_Cons Classify_char)
  next
    case (Inr l)
    obtain ws err2 p2 where rec: "stream_loop (logged p r) rs = (ws, err2, p2)"
      by (cases "stream_loop (logged p r) rs")
    from Cons.prems(2) Inr rec have eq: "vs = \<lparr>malicious = (l = 1)\<rparr> # ws" "err = err2"
      by (simp_all add: stream_loop_Cons)
    have "model q = model (logged p r)" using Cons.prems(1) by simp
    from Cons.IH [OF this rec] have "map_Classify q rs c = (ws, err2)" .
    with Inr lab eq show ?thesis by (simp add: Classify_char)
  qed
qed

section \<open>The claims\<close>

text \<open>
  C1. In every classification call, unary or one round of the streaming loop, the argument
  of \<open>predict\<close> is the one-sample batch holding the ten fields of the message in the
  order \<open>L4SrcPort, L4DstPort, Protocol, L7Proto, InBytes, OutBytes, InPkts, OutPkts,
  TCPFlags, FlowDurationMilliseconds\<close>. For \<open>classify\<close> this is the value handed to the
  model; for the handlers it is what the trace records: \<open>Classify\<close> adds exactly one
  such call, \<open>ClassifyStreaming\<close> adds one per message, in order, for every message it
  yields a verdict for and for the message it fails on, and none after that.
\<close>

theorem C1_feature_vector_order:
  "fst (classify p r) =
     model p [[uint (L4SrcPort r), uint (L4DstPort r), uint (Protocol r), uint (L7Proto r),
               uint (InBytes r), uint (OutBytes r), uint (InPkts r), uint (OutPkts r),
               uint (TCPFlags r), uint (FlowDurationMilliseconds r)]]
   \<and> predict_calls (trace (proc_after (Classify p r c))) =
       predict_calls (trace p) @
       [[[uint (L4SrcPort r), uint (L4DstPort r), uint (Protocol r), uint (L7Proto r),
          uint (InBytes r), uint (OutBytes r), uint (InPkts r), uint (OutPkts r),
          uint (TCPFlags r), uint (FlowDurationMilliseconds r)]]]
   \<and> predict_calls (trace (stream_proc_after (ClassifyStreaming p rs c))) =
       predict_calls (trace p) @
       map (\<lambda>m. [[uint (L4SrcPort m), uint (L4DstPort m), uint (Protocol m), uint (L7Proto m),
                   uint (InBytes m), uint (OutBytes m), uint (InPkts m), uint (OutPkts m),
                   uint (TCPFlags m), uint (FlowDurationMilliseconds m)]])
         (take (length (yielded (ClassifyStreaming p rs c)) +
                (if raised (ClassifyStreaming p rs c) = None then 0 else 1)) rs)"
proof (intro conjI)
  show "fst (classify p r) =
     model p [[uint (L4SrcPort r), uint (L4DstPort r), uint (Protocol r), uint (L7Proto r),
               uint (InBytes r), uint (OutBytes r), uint (InPkts r), uint (OutPkts r),
               uint (TCPFlags r), uint (FlowDurationMilliseconds r)]]"
    by (simp add: classify_fst feature_vector_def)
  show "predict_calls (trace (proc_after (Classify p r c))) =
       predict_calls (trace p) @
       [[[uint (L4SrcPort r), uint (L4DstPort r), uint (Protocol r), uint (L7Proto r),
          uint (InBytes r), uint (OutBytes r), uint (InPkts r), uint (OutPkts r),
          uint (TCPFlags r), uint (FlowDurationMilliseconds r)]]]"
    by (simp add: Classify_char feature_vector_def)
  have "trace (stream_proc_after (ClassifyStreaming p rs c)) =
          trace (p\<lparr>trace := trace p @ [Print ''mega printa'']\<rparr>) @
          map (\<lambda>r. Predict [feature_vector r])
            (take (length (yielded (ClassifyStreaming p rs c)) +
                (if raised (ClassifyStreaming p rs c) = None then 0 else 1)) rs)"
    by (rule stream_loop_trace [OF ClassifyStreaming_loop])
  then show "predict_calls (trace (stream_proc_after (ClassifyStreaming p rs c))) =
       predict_calls (trace p) @
       map (\<lambda>m. [[uint (L4SrcPort m), uint (L4DstPort m), uint (Protocol m), uint (L7Proto m),
                   uint (InBytes m), uint (OutBytes m), uint (InPkts m), uint (OutPkts m),
                   uint (TCPFlags m), uint (FlowDurationMilliseconds m)]])
         (take (length (yielded (ClassifyStreaming p rs c)) +
                (if raised (ClassifyStreaming p rs c) = None then 0 else 1)) rs)"
    by (simp add: feature_vector_def)
qed

theorem C1_feature_vector_order_witness:
  "predict_calls (trace (proc_after (Classify stub_process example_record fresh_context))) =
     [[[443, 51000, 6, 91, 1000, 500, 10, 8, 24, 1200]]]
   \<and> predict_calls (trace (stream_proc_after (ClassifyStreaming stub_process
        [example_record, small_record, zero_duration_record, example_record] fresh_context))) =
     [[[443, 51000, 6, 91, 1000, 500, 10, 8, 24, 1200]],
      [[443, 51000, 6, 91, 40, 500, 10, 8, 24, 1200]],
      [[443, 51000, 6, 91, 1000, 500, 10, 8, 24, 0]]]"
  using C1_feature_vector_order [of stub_process example_record fresh_context
      "[example_record, small_record, zero_duration_record, example_record]"]
  apply (simp only: stub_stream streaming_call.simps)
  apply (simp add: stub_process_def example_record_def small_record_def
      zero_duration_record_def feature_vector_def)
  done

text \<open>
  C2. For every message, in \<open>Classify\<close> and in every round of \<open>ClassifyStreaming\<close>
  that yields a verdict: when the model's label for the message is \<open>l\<close>, the verdict has
  \<open>malicious = True\<close> if \<open>l = 1\<close> and \<open>malicious = False\<close> for every other label,
  zero, negative or larger than one.
\<close>

theorem C2_label_mapping:
  "(label_of p r = Inr l \<longrightarrow>
      returned (Classify p r c) = Inr \<lparr>malicious = (l = 1)\<rparr>)
   \<and> (i < length (yielded (ClassifyStreaming p rs c)) \<and> label_of p (rs ! i) = Inr l' \<longrightarrow>
      yielded (ClassifyStreaming p rs c) ! i = \<lparr>malicious = (l' = 1)\<rparr>)"
proof (intro conjI impI)
  assume "label_of p r = Inr l"
  then show "returned (Classify p r c) = Inr \<lparr>malicious = (l = 1)\<rparr>"
    by (simp add: Classify_char)
next
  let ?p0 = "p\<lparr>trace := trace p @ [Print ''mega printa'']\<rparr>"
  assume a: "i < length (yielded (ClassifyStreaming p rs c)) \<and> label_of p (rs ! i) = Inr l'"
  then obtain k where k: "label_of ?p0 (rs ! i) = Inr k"
    and v: "yielded (ClassifyStreaming p rs c) ! i = \<lparr>malicious = (k = 1)\<rparr>"
    using stream_loop_nth [OF ClassifyStreaming_loop, of i p rs c] by blast
  have "label_of ?p0 (rs ! i) = label_of p (rs ! i)"
    by (rule label_of_cong) simp
  with a k have "k = l'" by simp
  with v show "yielded (ClassifyStreaming p rs c) ! i = \<lparr>malicious = (l' = 1)\<rparr>" by simp
qed

theorem C2_label_mapping_witness:
  "label_of stub_process example_record = Inr 1
   \<and> returned (Classify stub_process example_record fresh_context) = Inr \<lparr>malicious = True\<rparr>
   \<and> label_of stub_process ([example_record, small_record] ! 1) = Inr 0
   \<and> yielded (ClassifyStreaming stub_process [example_record, small_record] fresh_context) ! 1
       = \<lparr>malicious = False\<rparr>"
  using C2_label_mapping [of stub_process example_record 1 fresh_context 1
      "[example_record, small_record]" 0]
  by (simp add: stub_label_example stub_label_small stub_stream_ok)

text \<open>
  C3. When the generator of \<open>ClassifyStreaming\<close> ends without an exception on an input
  of \<open>n\<close> messages, it has yielded exactly \<open>n\<close> verdicts, and the \<open>i\<close>-th verdict is
  the one for the label of the \<open>i\<close>-th message.
\<close>

theorem C3_stream_complete_in_order:
  assumes "raised (ClassifyStreaming p rs c) = None"
  shows "length (yielded (ClassifyStreaming p rs c)) = length rs
    \<and> (\<forall>i<length rs. \<exists>l. label_of p (rs ! i) = Inr l
          \<and> yielded (ClassifyStreaming p rs c) ! i = \<lparr>malicious = (l = 1)\<rparr>)"
proof -
  let ?p0 = "p\<lparr>trace := trace p @ [Print ''mega printa'']\<rparr>"
  let ?S = "ClassifyStreaming p rs c"
  have len: "length (yielded ?S) = length rs"
    using stream_loop_length [OF ClassifyStreaming_loop, of p rs c] assms by simp
  have "\<exists>l. label_of p (rs ! i) = Inr l \<and> yielded ?S ! i = \<lparr>malicious = (l = 1)\<rparr>"
    if "i < length rs" for i
  proof -
    from that len have "i < length (yielded ?S)" by simp
    from stream_loop_nth [OF ClassifyStreaming_loop this]
    obtain l where "label_of ?p0 (rs ! i) = Inr l" "yielded ?S ! i = \<lparr>malicious = (l = 1)\<rparr>"
      by blast
    moreover have "label_of ?p0 (rs ! i) = label_of p (rs ! i)"
      by (rule label_of_cong) simp
    ultimately show ?thesis by simp
  qed
  with len show ?thesis by blast
qed

theorem C3_stream_complete_in_order_witness:
  "raised (ClassifyStreaming stub_process [example_record, small_record] fresh_context) = None
   \<and> length (yielded (ClassifyStreaming stub_process [example_record, small_record] fresh_context)) = 2
   \<and> yielded (ClassifyStreaming stub_process [example_record, small_record] fresh_context)
       = [\<lparr>malicious = True\<rparr>, \<lparr>malicious = False\<rparr>]"
proof -
  have h: "raised (ClassifyStreaming stub_process [example_record, small_record] fresh_context) = None"
    by (simp add: stub_stream_ok)
  from C3_stream_complete_in_order [OF h] h show ?thesis
    by (simp add: stub_stream_ok)
qed

text \<open>
  C4. Positions counted from zero: when the messages before position \<open>k\<close> all get a
  label and the message at position \<open>k\<close> makes the classification raise \<open>e\<close>,
  \<open>ClassifyStreaming\<close> yields exactly \<open>k\<close> verdicts, those of the messages before
  \<open>k\<close> in order, and then ends with the exception \<open>e\<close>; there is no verdict for
  position \<open>k\<close> or later, and no message after position \<open>k\<close> reaches the model.
  (With positions counted from one, as the specification does, this is \<open>k - 1\<close> verdicts
  for a first failure at \<open>k\<close>.)
\<close>

theorem C4_fail_fast:
  assumes k: "k < length rs"
    and ok: "\<forall>j<k. \<exists>l. label_of p (rs ! j) = Inr l"
    and bad: "label_of p (rs ! k) = Inl e"
  shows "raised (ClassifyStreaming p rs c) = Some e
    \<and> length (yielded (ClassifyStreaming p rs c)) = k
    \<and> (\<forall>j<k. \<exists>l. label_of p (rs ! j) = Inr l
          \<and> yielded (ClassifyStreaming p rs c) ! j = \<lparr>malicious = (l = 1)\<rparr>)
    \<and> predict_calls (trace (stream_proc_after (ClassifyStreaming p rs c))) =
        predict_calls (trace p) @ map (\<lambda>m. [feature_vector m]) (take (Suc k) rs)"
proof -
  let ?p0 = "p\<lparr>trace := trace p @ [Print ''mega printa'']\<rparr>"
  let ?S = "ClassifyStreaming p rs c"
  have cong: "label_of ?p0 m = label_of p m" for m :: "'a FlowMessage_scheme"
    by (rule label_of_cong) simp
  have nth: "\<exists>l. label_of p (rs ! i) = Inr l \<and> yielded ?S ! i = \<lparr>malicious = (l = 1)\<rparr>"
    if "i < length (yielded ?S)" for i
    using stream_loop_nth [OF ClassifyStreaming_loop that] by (simp add: cong)
  have not_gt: "\<not> k < length (yielded ?S)"
  proof
    assume "k < length (yielded ?S)"
    from nth [OF this] bad show False by simp
  qed
  have len_le: "length (yielded ?S) \<le> length rs"
    using stream_loop_length [OF ClassifyStreaming_loop, of p rs c] by (simp split: if_splits)
  obtain e' where e': "raised ?S = Some e'"
  proof (cases "raised ?S")
    case None
    then have "length (yielded ?S) = length rs"
      using stream_loop_length [OF ClassifyStreaming_loop, of p rs c] by simp
    with k not_gt show ?thesis by simp
  next
    case (Some x)
    then show ?thesis using that by blast
  qed
  have loop: "stream_loop ?p0 rs = (yielded ?S, Some e', stream_proc_after ?S)"
    using ClassifyStreaming_loop [of p rs c] e' by simp
  have at: "label_of p (rs ! length (yielded ?S)) = Inl e'"
    using stream_loop_error [OF loop] by (simp add: cong)
  have not_lt: "\<not> length (yielded ?S) < k"
  proof
    assume "length (yielded ?S) < k"
    with ok obtain l where "label_of p (rs ! length (yielded ?S)) = Inr l" by blast
    with at show False by simp
  qed
  from not_gt not_lt have len: "length (yielded ?S) = k" by simp
  with at bad have "e' = e" by simp
  with e' have r: "raised ?S = Some e" by simp
  have tr: "predict_calls (trace (stream_proc_after ?S)) =
        predict_calls (trace p) @ map (\<lambda>m. [feature_vector m]) (take (Suc k) rs)"
    using stream_loop_trace [OF ClassifyStreaming_loop, of p rs c] r len by simp
  from nth len have "\<forall>j<k. \<exists>l. label_of p (rs ! j) = Inr l
          \<and> yielded ?S ! j = \<lparr>malicious = (l = 1)\<rparr>" by simp
  with r len tr show ?thesis by blast
qed

theorem C4_fail_fast_witness:
  "(2::nat) < length [example_record, small_record, zero_duration_record, example_record]
   \<and> label_of stub_process
        ([example_record, small_record, zero_duration_record, example_record] ! 2)
       = Inl PredictError
   \<and> raised (ClassifyStreaming stub_process
        [example_record, small_record, zero_duration_record, example_record] fresh_context)
       = Some PredictError
   \<and> length (yielded (ClassifyStreaming stub_process
        [example_record, small_record, zero_duration_record, example_record] fresh_context))
       = 2"
proof -
  let ?rs = "[example_record, small_record, zero_duration_record, example_record]"
  have k: "(2::nat) < length ?rs" by simp
  have ok: "\<forall>j<2. \<exists>l. label_of stub_process (?rs ! j) = Inr l"
    by (simp add: less_Suc_eq numeral_2_eq_2 stub_label_example stub_label_small)
  have bad: "label_of stub_process (?rs ! 2) = Inl PredictError"
    by (simp add: stub_label_zero)
  from C4_fail_fast [OF k ok bad, of fresh_context] k bad show ?thesis
    by simp
qed

text \<open>
  C5, as stated, asks that a failing unary call ends with the status \<open>INVALID_ARGUMENT\<close>
  or \<open>INTERNAL\<close>. The handler has no \<open>try\<close> and never touches its \<open>context\<close>: on
  the zero-duration record, where the stand-in model raises, the call raises the same
  exception and the status the handler has selected is still none.
\<close>

theorem C5_counterexample:
  "returned (Classify stub_process zero_duration_record fresh_context) = Inl PredictError
   \<and> ctx_code (ctx_after (Classify stub_process zero_duration_record fresh_context)) = None"
  by (simp add: Classify_char stub_label_zero fresh_context_def)

text \<open>
  C5, amended. The unary \<open>Classify\<close> fails in exactly two ways: \<open>predict\<close> raises
  \<open>e\<close> on the feature vector of the request, or it returns an array without a first
  label (then \<open>e\<close> is \<open>IndexError\<close>). In both the handler returns no verdict and
  raises \<open>e\<close> to the framework that called it, and it raises in no other case: building
  the feature vector from the request has no failure of its own, and whenever
  \<open>predict\<close> returns a first label the call returns the verdict for that label. In
  every call, failing or not, the handler leaves the call context as it received it, so
  it selects no status code of its own.
\<close>

theorem C5_unary_error_propagates:
  "(returned (Classify p r c) = Inl e \<longleftrightarrow>
      model p [feature_vector r] = Inl e
      \<or> (model p [feature_vector r] = Inr [] \<and> e = IndexError))
   \<and> (\<forall>l ls. model p [feature_vector r] = Inr (l # ls) \<longrightarrow>
         returned (Classify p r c) = Inr \<lparr>malicious = (l = 1)\<rparr>)
   \<and> ctx_after (Classify p r c) = c"
proof (intro conjI allI impI)
  show "returned (Classify p r c) = Inl e \<longleftrightarrow>
      model p [feature_vector r] = Inl e
      \<or> (model p [feature_vector r] = Inr [] \<and> e = IndexError)"
  proof (cases "model p [feature_vector r]")
    case (Inl e')
    then show ?thesis by (simp add: Classify_char label_of_model)
  next
    case (Inr labels)
    then show ?thesis
      by (cases labels) (auto simp: Classify_char label_of_model)
  qed
next
  fix l ls assume "model p [feature_vector r] = Inr (l # ls)"
  then show "returned (Classify p r c) = Inr \<lparr>malicious = (l = 1)\<rparr>"
    by (simp add: Classify_char label_of_model)
next
  show "ctx_after (Classify p r c) = c" by (simp add: Classify_char)
qed

theorem C5_unary_error_propagates_witness:
  "model stub_process [feature_vector zero_duration_record] = Inl PredictError
   \<and> returned (Classify stub_process zero_duration_record fresh_context) = Inl PredictError
   \<and> ctx_after (Classify stub_process zero_duration_record fresh_context) = fresh_context
   \<and> model stub_process [feature_vector example_record] = Inr [1]
   \<and> returned (Classify stub_process example_record fresh_context) = Inr \<lparr>malicious = True\<rparr>"
proof -
  have h: "model stub_process [feature_vector zero_duration_record] = Inl PredictError"
    by (simp add: stub_process_def stub_model_def feature_vector_def zero_duration_record_def
        example_record_def)
  have g: "model stub_process [feature_vector example_record] = Inr [1]"
    by (simp add: stub_process_def stub_model_def feature_vector_def example_record_def)
  from C5_unary_error_propagates [of stub_process zero_duration_record fresh_context PredictError] h
  have a: "returned (Classify stub_process zero_duration_record fresh_context) = Inl PredictError"
    "ctx_after (Classify stub_process zero_duration_record fresh_context) = fresh_context"
    by simp_all
  from C5_unary_error_propagates [of stub_process example_record fresh_context PredictError] g
  have b: "returned (Classify stub_process example_record fresh_context) = Inr \<lparr>malicious = True\<rparr>"
    by simp
  from h g a b show ?thesis by simp
qed

text \<open>
  C6. When the model file cannot be opened or does not unpickle, the run of the module
  ends with exit status 1 and its trace has no \<open>add_insecure_port\<close> and no server start.
  When the module does reach serving, the model of the process is the one unpickled from
  the file, the trace starts with the one open and the one load, and nothing after them
  loads again; no call of \<open>Classify\<close> or \<open>ClassifyStreaming\<close>, and no sequence of such
  calls, adds an open or a load to the trace.
\<close>

theorem C6_startup_failure:
  "((\<exists>e. open_rb env model_path = Inl e)
      \<or> (\<exists>f e. open_rb env model_path = Inr f \<and> pickle_load env f = Inl e)
     \<longrightarrow> (\<exists>tr. module_main env = Exited 1 tr \<and> filter is_listen tr = []))
   \<and> (\<forall>p. module_main env = Serving p \<longrightarrow>
        (\<exists>f rest. open_rb env model_path = Inr f \<and> pickle_load env f = Inr (model p)
           \<and> trace p = [Open model_path, PickleLoad] @ rest \<and> filter is_load rest = []))
   \<and> filter is_load (trace (proc_after (Classify q r c))) = filter is_load (trace q)
   \<and> filter is_load (trace (stream_proc_after (ClassifyStreaming q rs c))) =
       filter is_load (trace q)
   \<and> filter is_load (trace (serve_calls q calls)) = filter is_load (trace q)"
proof (intro conjI impI allI)
  assume "(\<exists>e. open_rb env model_path = Inl e)
      \<or> (\<exists>f e. open_rb env model_path = Inr f \<and> pickle_load env f = Inl e)"
  from module_main_load_fails [OF this]
  show "\<exists>tr. module_main env = Exited 1 tr \<and> filter is_listen tr = []"
    by (auto simp: is_listen_def split: sum.splits)
next
  fix p assume "module_main env = Serving p"
  then show "\<exists>f rest. open_rb env model_path = Inr f \<and> pickle_load env f = Inr (model p)
           \<and> trace p = [Open model_path, PickleLoad] @ rest \<and> filter is_load rest = []"
    by (rule module_main_Serving)
qed (rule Classify_loads ClassifyStreaming_loads serve_calls_loads)+

theorem C6_startup_failure_witness:
  "open_rb no_file_env model_path = Inl OSError
   \<and> module_main no_file_env = Exited 1 [Open model_path]
   \<and> pickle_load corrupt_file_env [0, 1] = Inl UnpicklingError
   \<and> module_main corrupt_file_env = Exited 1 [Open model_path, PickleLoad]
   \<and> module_main good_env = Serving
        \<lparr>model = stub_model,
         trace = [Open model_path, PickleLoad, GrpcServer 10, AddServicer,
                  AddInsecurePort ''[::]:50051'', ServerStart,
                  Print ''started listening on: [::]:50051'', WaitForTermination]\<rparr>
   \<and> pickle_load good_env [128, 4] = Inr stub_model"
proof -
  have a: "open_rb no_file_env model_path = Inl OSError"
    by (simp add: no_file_env_def)
  have b: "open_rb corrupt_file_env model_path = Inr [0, 1]"
    "pickle_load corrupt_file_env [0, 1] = Inl UnpicklingError"
    by (simp_all add: corrupt_file_env_def no_file_env_def)
  have g: "open_rb good_env model_path = Inr [128, 4]"
    by (simp add: good_env_def no_file_env_def)
  from C6_startup_failure [of no_file_env] a
  obtain tr where "module_main no_file_env = Exited 1 tr" by blast
  moreover from C6_startup_failure [of corrupt_file_env] b
  obtain tr' where "module_main corrupt_file_env = Exited 1 tr'" by blast
  moreover have "pickle_load good_env [128, 4] = Inr stub_model"
    using C6_startup_failure [of good_env, THEN conjunct2, THEN conjunct1, rule_format,
        OF module_main_good_env] g
    by auto
  ultimately show ?thesis using a b module_main_good_env
    by (simp add: module_main_def)
qed

text \<open>
  C7. With the same model, two executions of \<open>Classify\<close> on the same record return the
  same result, whatever else differs between the two process states and the two call
  contexts; in particular a second call made after the first returns what the first did.
\<close>

theorem C7_determinism:
  "(model q = model p \<longrightarrow> returned (Classify q r c') = returned (Classify p r c))
   \<and> returned (Classify (proc_after (Classify p r c)) r c') = returned (Classify p r c)"
  by (simp add: Classify_char label_of_model)

theorem C7_determinism_witness:
  "model (stub_process\<lparr>trace := []\<rparr>) = model stub_process
   \<and> returned (Classify (stub_process\<lparr>trace := []\<rparr>) example_record
        (fresh_context\<lparr>ctx_details := Some ''again''\<rparr>))
       = returned (Classify stub_process example_record fresh_context)
   \<and> returned (Classify stub_process example_record fresh_context) = Inr \<lparr>malicious = True\<rparr>"
  using C7_determinism [of "stub_process\<lparr>trace := []\<rparr>" stub_process example_record
      "fresh_context\<lparr>ctx_details := Some ''again''\<rparr>" fresh_context]
  by (simp add: Classify_char stub_label_example)

text \<open>
  C8. The verdicts and the final exception of \<open>ClassifyStreaming\<close> are those of the
  unary \<open>Classify\<close> mapped over the input up to its first failure, and the \<open>i\<close>-th
  verdict yielded is the one a unary \<open>Classify\<close> of the \<open>i\<close>-th message alone returns.
\<close>

theorem C8_streaming_is_map_of_unary:
  "(yielded (ClassifyStreaming p rs c), raised (ClassifyStreaming p rs c)) = map_Classify p rs c'
   \<and> (\<forall>i<length (yielded (ClassifyStreaming p rs c)).
         returned (Classify p (rs ! i) c') = Inr (yielded (ClassifyStreaming p rs c) ! i))"
proof
  let ?p0 = "p\<lparr>trace := trace p @ [Print ''mega printa'']\<rparr>"
  have "model p = model ?p0" by simp
  from map_Classify_loop [OF this ClassifyStreaming_loop [of p rs c], of c']
  show "(yielded (ClassifyStreaming p rs c), raised (ClassifyStreaming p rs c)) = map_Classify p rs c'"
    by simp
  show "\<forall>i<length (yielded (ClassifyStreaming p rs c)).
         returned (Classify p (rs ! i) c') = Inr (yielded (ClassifyStreaming p rs c) ! i)"
  proof (intro allI impI)
    fix i assume "i < length (yielded (ClassifyStreaming p rs c))"
    from stream_loop_nth [OF ClassifyStreaming_loop this]
    obtain l where "label_of ?p0 (rs ! i) = Inr l"
      "yielded (ClassifyStreaming p rs c) ! i = \<lparr>malicious = (l = 1)\<rparr>" by blast
    moreover have "label_of ?p0 (rs ! i) = label_of p (rs ! i)"
      by (rule label_of_cong) simp
    ultimately show "returned (Classify p (rs ! i) c') = Inr (yielded (ClassifyStreaming p rs c) ! i)"
      by (simp add: Classify_char)
  qed
qed

theorem C8_streaming_is_map_of_unary_witness:
  "map_Classify stub_process [example_record, small_record, zero_duration_record, example_record]
      fresh_context = ([\<lparr>malicious = True\<rparr>, \<lparr>malicious = False\<rparr>], Some PredictError)
   \<and> returned (Classify stub_process
        ([example_record, small_record, zero_duration_record, example_record] ! 1) fresh_context)
       = Inr \<lparr>malicious = False\<rparr>"
proof -
  let ?rs = "[example_record, small_record, zero_duration_record, example_record]"
  note th = C8_streaming_is_map_of_unary [of stub_process ?rs fresh_context fresh_context]
  from th have a: "map_Classify stub_process ?rs fresh_context =
      (yielded (ClassifyStreaming stub_process ?rs fresh_context),
       raised (ClassifyStreaming stub_process ?rs fresh_context))"
    by simp
  have "1 < length (yielded (ClassifyStreaming stub_process ?rs fresh_context))"
    by (simp only: stub_stream streaming_call.simps) simp
  with th have b: "returned (Classify stub_process (?rs ! 1) fresh_context) =
      Inr (yielded (ClassifyStreaming stub_process ?rs fresh_context) ! 1)"
    by blast
  from a b show ?thesis
    by (simp only: stub_stream streaming_call.simps) simp
qed

text \<open>
  C9. \<open>classify\<close>, \<open>Classify\<close> and \<open>ClassifyStreaming\<close> leave the stored model as it
  is, and so does any sequence of calls; after any such sequence in a process that
  reached serving, the stored model is still the one unpickled from the model file.
\<close>

theorem C9_model_never_replaced:
  "model (snd (classify p r)) = model p
   \<and> model (proc_after (Classify p r c)) = model p
   \<and> model (stream_proc_after (ClassifyStreaming p rs c)) = model p
   \<and> model (serve_calls p calls) = model p
   \<and> (\<forall>p0. module_main env = Serving p0 \<longrightarrow>
        (\<exists>f. open_rb env model_path = Inr f
           \<and> pickle_load env f = Inr (model (serve_calls p0 calls))))"
proof (intro conjI allI impI)
  show "model (snd (classify p r)) = model p" by (simp add: classify_snd)
  show "model (proc_after (Classify p r c)) = model p" by (simp add: Classify_char)
  show "model (stream_proc_after (ClassifyStreaming p rs c)) = model p"
    using stream_loop_model [OF ClassifyStreaming_loop, of p rs c] by simp
  show "model (serve_calls p calls) = model p" by (rule serve_calls_model)
next
  fix p0 assume "module_main env = Serving p0"
  from module_main_Serving [OF this]
  show "\<exists>f. open_rb env model_path = Inr f
           \<and> pickle_load env f = Inr (model (serve_calls p0 calls))"
    by (auto simp: serve_calls_model)
qed

theorem C9_model_never_replaced_witness:
  "module_main good_env = Serving
     \<lparr>model = stub_model,
      trace = [Open model_path, PickleLoad, GrpcServer 10, AddServicer,
               AddInsecurePort ''[::]:50051'', ServerStart,
               Print ''started listening on: [::]:50051'', WaitForTermination]\<rparr>
   \<and> open_rb good_env model_path = Inr [128, 4]
   \<and> pickle_load good_env [128, 4] = Inr (model (serve_calls
       \<lparr>model = stub_model,
        trace = [Open model_path, PickleLoad, GrpcServer 10, AddServicer,
                 AddInsecurePort ''[::]:50051'', ServerStart,
                 Print ''started listening on: [::]:50051'', WaitForTermination]\<rparr>
       [UnaryCall example_record fresh_context,
        StreamingCall [small_record, zero_duration_record] fresh_context]))"
proof -
  have o: "open_rb good_env model_path = Inr [128, 4]"
    by (simp add: good_env_def no_file_env_def)
  from C9_model_never_replaced [of _ example_record _ "[]"
      "[UnaryCall example_record fresh_context,
        StreamingCall [small_record, zero_duration_record] fresh_context]" good_env]
    module_main_good_env o
  show ?thesis by auto
qed

text \<open>
  C10. With the same model, two requests that agree on the ten feature fields get the
  same result from \<open>Classify\<close>, whatever the rest of the two messages, the two call
  contexts and the traces of the two process states.
\<close>

theorem C10_depends_only_on_features:
  fixes r1 :: "'a FlowMessage_scheme" and r2 :: "'b FlowMessage_scheme"
  assumes "model q = model p"
    and "L4SrcPort r2 = L4SrcPort r1" and "L4DstPort r2 = L4DstPort r1"
    and "Protocol r2 = Protocol r1" and "L7Proto r2 = L7Proto r1"
    and "InBytes r2 = InBytes r1" and "OutBytes r2 = OutBytes r1"
    and "InPkts r2 = InPkts r1" and "OutPkts r2 = OutPkts r1"
    and "TCPFlags r2 = TCPFlags r1"
    and "FlowDurationMilliseconds r2 = FlowDurationMilliseconds r1"
  shows "returned (Classify q r2 c2) = returned (Classify p r1 c1)"
proof -
  from assms have "feature_vector r2 = feature_vector r1"
    by (simp add: feature_vector_def)
  with assms(1) have "label_of q r2 = label_of p r1"
    by (simp add: label_of_model)
  then show ?thesis by (simp add: Classify_char)
qed

theorem C10_depends_only_on_features_witness:
  "L4SrcPort tagged_record = L4SrcPort example_record
   \<and> FlowDurationMilliseconds tagged_record = FlowDurationMilliseconds example_record
   \<and> returned (Classify (stub_process\<lparr>trace := []\<rparr>) tagged_record
        (fresh_context\<lparr>ctx_details := Some ''other call''\<rparr>))
       = returned (Classify stub_process example_record fresh_context)"
  using C10_depends_only_on_features [of "stub_process\<lparr>trace := []\<rparr>" stub_process
      tagged_record example_record "fresh_context\<lparr>ctx_details := Some ''other call''\<rparr>"
      fresh_context]
  by (simp add: tagged_record_def example_record_def)

end
